theory Spec2Isabelle
  imports Main "HOL-Library.Char_ord" "HOL-Library.List_Lexorder" "HOL-Library.Sublist"
begin

section \<open>The runtime executor (src/src/runtime.ts)\<close>

text \<open>
  Every JavaScript function is embedded as a transformer of a world \<open>'w\<close> (everything the
  test code can read or write) that either returns a value or throws. The registration
  functions run at suite-registration time on a separate registration state: the heap of
  context objects and chain arrays, which the registered test cases read later, when the
  host runner executes them.
\<close>

datatype js_error = TypeError string | Thrown string

type_synonym ('a, 'w) js = "'w \<Rightarrow> (js_error + 'a) \<times> 'w"

definition js_return :: "'a \<Rightarrow> ('a, 'w) js" where
  "js_return x w = (Inr x, w)"

definition js_throw :: "js_error \<Rightarrow> ('a, 'w) js" where
  "js_throw e w = (Inl e, w)"

definition js_bind :: "('a, 'w) js \<Rightarrow> ('a \<Rightarrow> ('b, 'w) js) \<Rightarrow> ('b, 'w) js" where
  "js_bind m f w = (case m w of (Inl e, w') \<Rightarrow> (Inl e, w') | (Inr x, w') \<Rightarrow> f x w')"

text \<open>
  \<^verbatim>\<open>void | Promise<void>\<close>: a promise is the work still to be done until it settles;
  \<^verbatim>\<open>await\<close> runs that work to completion (a rejection is a throw) before the caller goes on.
\<close>

datatype 'w awaitable = Void | Promise "'w \<Rightarrow> (js_error + unit) \<times> 'w"

fun await :: "'w awaitable \<Rightarrow> (unit, 'w) js" where
  "await Void = js_return ()"
| "await (Promise p) = p"

type_synonym addr = nat

type_synonym ('i, 'w) modifier_fn = "'i \<Rightarrow> (unit, 'w) js"
type_synonym ('s, 'w) perform_fn = "'s \<Rightarrow> ('w awaitable, 'w) js"

text \<open>\<^verbatim>\<open>interface RuntimeContext\<close>: the two chains are arrays, held by reference.\<close>

record ('i, 's, 'w) RuntimeContext =
  inputs :: "('i, 'w) js"
  subject :: "'i \<Rightarrow> ('s, 'w) js"
  modifiers :: addr
  performs :: addr


record ('i, 's, 'w) WhenConfig =
  cfg_modifier :: "('i, 'w) modifier_fn option"
  cfg_perform :: "('s, 'w) perform_fn option"

text \<open>The objects allocated at registration time; an address is an index.\<close>

record ('i, 's, 'w) Heap =
  contexts :: "('i, 's, 'w) RuntimeContext list"
  modifier_arrays :: "('i, 'w) modifier_fn list list"
  perform_arrays :: "('s, 'w) perform_fn list list"

definition at :: "'a list \<Rightarrow> addr \<Rightarrow> 'a option" where
  "at xs a = (if a < length xs then Some (xs ! a) else None)"

type_synonym ('i, 's, 'w) test_case = "('i, 's, 'w) Heap \<Rightarrow> (unit, 'w) js"

record ('i, 's, 'w) Suite =
  heap :: "('i, 's, 'w) Heap"
  tests :: "(string \<times> ('i, 's, 'w) test_case) list"

type_synonym ('i, 's, 'w) registration = "(unit, ('i, 's, 'w) Suite) js"

type_synonym ('i, 's, 'w) DescribeFn =
  "string \<Rightarrow> ('i, 's, 'w) registration \<Rightarrow> ('i, 's, 'w) registration"

type_synonym ('i, 's, 'w) TestFn =
  "string \<Rightarrow> ('i, 's, 'w) test_case \<Rightarrow> ('i, 's, 'w) registration"

definition new_modifier_array ::
  "('i, 'w) modifier_fn list \<Rightarrow> ('i, 's, 'w) Suite \<Rightarrow> addr \<times> ('i, 's, 'w) Suite" where
  "new_modifier_array ms st =
     (length (modifier_arrays (heap st)),
      st\<lparr>heap := (heap st)\<lparr>modifier_arrays := modifier_arrays (heap st) @ [ms]\<rparr>\<rparr>)"

definition new_perform_array ::
  "('s, 'w) perform_fn list \<Rightarrow> ('i, 's, 'w) Suite \<Rightarrow> addr \<times> ('i, 's, 'w) Suite" where
  "new_perform_array ps st =
     (length (perform_arrays (heap st)),
      st\<lparr>heap := (heap st)\<lparr>perform_arrays := perform_arrays (heap st) @ [ps]\<rparr>\<rparr>)"

definition new_context ::
  "('i, 's, 'w) RuntimeContext \<Rightarrow> ('i, 's, 'w) Suite \<Rightarrow> addr \<times> ('i, 's, 'w) Suite" where
  "new_context c st =
     (length (contexts (heap st)),
      st\<lparr>heap := (heap st)\<lparr>contexts := contexts (heap st) @ [c]\<rparr>\<rparr>)"



text \<open>
  \<^verbatim>\<open>__when\<close>: the callback reads the parent's fields, spreads the parent's arrays into two
  new arrays (with the optional modifier and perform at the end), allocates the child
  context and calls \<^verbatim>\<open>body(ctx)\<close>. Reading through a reference that holds no object is
  JavaScript's TypeError.
\<close>

definition when_scope ::
  "('i, 's, 'w) WhenConfig \<Rightarrow> (addr \<Rightarrow> ('i, 's, 'w) registration) \<Rightarrow> addr \<Rightarrow>
   ('i, 's, 'w) registration" where
  "when_scope config body parentCtx st =
     (case at (contexts (heap st)) parentCtx of
        None \<Rightarrow> js_throw (TypeError ''parentCtx'') st
      | Some p \<Rightarrow>
         (case at (modifier_arrays (heap st)) (modifiers p) of
            None \<Rightarrow> js_throw (TypeError ''parentCtx.modifiers'') st
          | Some ms \<Rightarrow>
             (let (am, st1) = new_modifier_array
                     (ms @ (case cfg_modifier config of Some m \<Rightarrow> [m] | None \<Rightarrow> [])) st
              in case at (perform_arrays (heap st1)) (performs p) of
                   None \<Rightarrow> js_throw (TypeError ''parentCtx.performs'') st1
                 | Some ps \<Rightarrow>
                    (let (ap, st2) = new_perform_array
                            (ps @ (case cfg_perform config of Some f \<Rightarrow> [f] | None \<Rightarrow> [])) st1;
                         (ctx, st3) = new_context
                            \<lparr>inputs = inputs p, subject = subject p,
                             modifiers = am, performs = ap\<rparr> st2
                     in body ctx st3))))"

definition registerWhen ::
  "string \<Rightarrow> ('i, 's, 'w) WhenConfig \<Rightarrow> (addr \<Rightarrow> ('i, 's, 'w) registration) \<Rightarrow> addr \<Rightarrow>
   ('i, 's, 'w) DescribeFn \<Rightarrow> ('i, 's, 'w) registration" where
  "registerWhen scenario config body parentCtx describeFn =
     describeFn scenario (when_scope config body parentCtx)"

text \<open>The two loops of the test case registered by \<^verbatim>\<open>__it\<close>.\<close>

fun for_modifiers :: "('i, 'w) modifier_fn list \<Rightarrow> 'i \<Rightarrow> (unit, 'w) js" where
  "for_modifiers [] x = js_return ()"
| "for_modifiers (m # ms) x = js_bind (m x) (\<lambda>_. for_modifiers ms x)"

fun for_performs :: "('s, 'w) perform_fn list \<Rightarrow> 's \<Rightarrow> (unit, 'w) js" where
  "for_performs [] s = js_return ()"
| "for_performs (p # ps) s =
     js_bind (p s) (\<lambda>r. js_bind (await r) (\<lambda>_. for_performs ps s))"

text \<open>
  The \<^verbatim>\<open>async () => { ... }\<close> that \<^verbatim>\<open>__it\<close> hands to the test runner. It reads the context
  when it runs, from the heap as it is then.
\<close>

definition it_case ::
  "('s, 'w) perform_fn \<Rightarrow> addr \<Rightarrow> ('i, 's, 'w) test_case" where
  "it_case testFn ctx h =
     (case at (contexts h) ctx of
        None \<Rightarrow> js_throw (TypeError ''ctx'')
      | Some c \<Rightarrow>
          js_bind (inputs c) (\<lambda>x.
          (case at (modifier_arrays h) (modifiers c) of
             None \<Rightarrow> js_throw (TypeError ''ctx.modifiers'')
           | Some ms \<Rightarrow>
               js_bind (for_modifiers ms x) (\<lambda>_.
               js_bind (subject c x) (\<lambda>s.
               (case at (perform_arrays h) (performs c) of
                  None \<Rightarrow> js_throw (TypeError ''ctx.performs'')
                | Some ps \<Rightarrow>
                    js_bind (for_performs ps s) (\<lambda>_.
                    js_bind (testFn s) await)))))))"


subsection \<open>Spies: recording what a test case calls\<close>

text \<open>
  A spy wraps a callback so that every call appends an event to a log kept beside the
  world; the executor under test is unchanged. A spied promise logs when it settles.
\<close>

datatype ('i, 's) event =
    CallInputs | CallModifier nat 'i | CallSubject 'i
  | CallPerform nat 's | PerformSettled nat | CallTest 's | TestSettled

type_synonym ('w, 'i, 's) spied = "'w \<times> ('i, 's) event list"

definition logged ::
  "('i, 's) event \<Rightarrow> ('r \<Rightarrow> 'q) \<Rightarrow> ('r, 'w) js \<Rightarrow> ('q, ('w, 'i, 's) spied) js" where
  "logged e f m = (\<lambda>(w, l). case m w of
       (Inl err, w') \<Rightarrow> (Inl err, (w', l @ [e]))
     | (Inr r, w') \<Rightarrow> (Inr (f r), (w', l @ [e])))"

definition spy_awaitable :: "('i, 's) event \<Rightarrow> 'w awaitable \<Rightarrow> ('w, 'i, 's) spied awaitable" where
  "spy_awaitable e r = Promise (logged e id (await r))"

definition spy_inputs :: "('i, 'w) js \<Rightarrow> ('i, ('w, 'i, 's) spied) js" where
  "spy_inputs f = logged CallInputs id f"

definition spy_subject :: "('i \<Rightarrow> ('s, 'w) js) \<Rightarrow> 'i \<Rightarrow> ('s, ('w, 'i, 's) spied) js" where
  "spy_subject f x = logged (CallSubject x) id (f x)"

definition spy_modifier ::
  "nat \<Rightarrow> ('i, 'w) modifier_fn \<Rightarrow> ('i, ('w, 'i, 's) spied) modifier_fn" where
  "spy_modifier k m x = logged (CallModifier k x) id (m x)"

definition spy_perform ::
  "nat \<Rightarrow> ('s, 'w) perform_fn \<Rightarrow> ('s, ('w, 'i, 's) spied) perform_fn" where
  "spy_perform k p s = logged (CallPerform k s) (spy_awaitable (PerformSettled k)) (p s)"

definition spy_test :: "('s, 'w) perform_fn \<Rightarrow> ('s, ('w, 'i, 's) spied) perform_fn" where
  "spy_test t s = logged (CallTest s) (spy_awaitable TestSettled) (t s)"

definition spy_modifiers ::
  "nat \<Rightarrow> ('i, 'w) modifier_fn list \<Rightarrow> ('i, ('w, 'i, 's) spied) modifier_fn list" where
  "spy_modifiers n ms = map (\<lambda>(k, m). spy_modifier k m) (enumerate n ms)"

definition spy_performs ::
  "nat \<Rightarrow> ('s, 'w) perform_fn list \<Rightarrow> ('s, ('w, 'i, 's) spied) perform_fn list" where
  "spy_performs n ps = map (\<lambda>(k, p). spy_perform k p) (enumerate n ps)"

definition spy_context ::
  "('i, 's, 'w) RuntimeContext \<Rightarrow> ('i, 's, ('w, 'i, 's) spied) RuntimeContext" where
  "spy_context c =
     \<lparr>inputs = spy_inputs (inputs c), subject = spy_subject (subject c),
      modifiers = modifiers c, performs = performs c\<rparr>"

definition spy_heap :: "('i, 's, 'w) Heap \<Rightarrow> ('i, 's, ('w, 'i, 's) spied) Heap" where
  "spy_heap h =
     \<lparr>contexts = map spy_context (contexts h),
      modifier_arrays = map (spy_modifiers 0) (modifier_arrays h),
      perform_arrays = map (spy_performs 0) (perform_arrays h)\<rparr>"




subsection \<open>The host test runner\<close>

text \<open>
  \<^verbatim>\<open>describe\<close> and \<^verbatim>\<open>test\<close> are vitest's, the defaults of \<^verbatim>\<open>describeFn\<close> and
  \<^verbatim>\<open>testRunner\<close>: the first runs its callback at once, the second records the test case.
  A \<^verbatim>\<open>given\<close> with a chain of nested \<^verbatim>\<open>when\<close> blocks around one \<^verbatim>\<open>it\<close> is the generated
  code \<^verbatim>\<open>__given(.., (__ctx) => { __when(.., (__ctx) => { .. __it(.., __ctx) .. }, __ctx) })\<close>.
\<close>

definition describe :: "('i, 's, 'w) DescribeFn" where
  "describe name fn = fn"

definition test :: "('i, 's, 'w) TestFn" where
  "test name fn st = (Inr (), st\<lparr>tests := tests st @ [(name, fn)]\<rparr>)"






subsection \<open>Factories and steps that only touch their own object\<close>

text \<open>
  For the isolation property the world is a list of cells, an object reference is an
  index, and allocation appends a cell. The predicates say what the property assumes of
  the callbacks: the inputs factory allocates a new cell with a fixed content, the subject
  factory allocates a new cell computed from its argument's cell, a modifier or perform
  reads and writes the cell it is given and nothing else. Such a step is a computation
  \<open>f\<close> on the content of one cell, which may throw; \<open>local_chain\<close> runs a list of them on
  one cell, as the two loops of the test case do on the world, and \<open>run_on_new_objects\<close>
  is a run of a test case in which the input and the subject are two new cells.
\<close>

definition allocates_fresh :: "'v \<Rightarrow> (addr, 'v list) js \<Rightarrow> bool" where
  "allocates_fresh v0 f \<longleftrightarrow> (\<forall>w. f w = (Inr (length w), w @ [v0]))"

definition constructs_from :: "('v \<Rightarrow> 'v) \<Rightarrow> (addr \<Rightarrow> (addr, 'v list) js) \<Rightarrow> bool" where
  "constructs_from mk f \<longleftrightarrow> (\<forall>x w. x < length w \<longrightarrow> f x w = (Inr (length w), w @ [mk (w ! x)]))"

fun local_chain :: "(unit, 'v) js list \<Rightarrow> (unit, 'v) js" where
  "local_chain [] = js_return ()"
| "local_chain (f # fs) = js_bind f (\<lambda>_. local_chain fs)"

definition touches_only_input :: "(unit, 'v) js \<Rightarrow> (addr, 'v list) modifier_fn \<Rightarrow> bool" where
  "touches_only_input f m \<longleftrightarrow>
     (\<forall>x w. x < length w \<longrightarrow> m x w = (fst (f (w ! x)), w[x := snd (f (w ! x))]))"

definition touches_only_subject :: "(unit, 'v) js \<Rightarrow> (addr, 'v list) perform_fn \<Rightarrow> bool" where
  "touches_only_subject g p \<longleftrightarrow>
     (\<forall>s w. s < length w \<longrightarrow>
        js_bind (p s) await w = (fst (g (w ! s)), w[s := snd (g (w ! s))]))"

definition run_on_new_objects ::
  "(unit, 'v) js list \<Rightarrow> (unit, 'v) js list \<Rightarrow> 'v \<Rightarrow> ('v \<Rightarrow> 'v) \<Rightarrow>
   (addr, 'v list) perform_fn \<Rightarrow> (unit, 'v list) js" where
  "run_on_new_objects fs gs v0 mk t w =
     (case local_chain fs v0 of
        (Inl e, x) \<Rightarrow> (Inl e, w @ [x])
      | (Inr _, x) \<Rightarrow>
          (case local_chain gs (mk x) of
             (Inl e, s) \<Rightarrow> (Inl e, w @ [x, s])
           | (Inr _, s) \<Rightarrow> js_bind (t (Suc (length w))) await (w @ [x, s])))"

definition foo_inputs :: "(addr, int list) js" where
  "foo_inputs w = (Inr (length w), w @ [0])"

definition foo_subject :: "addr \<Rightarrow> (addr, int list) js" where
  "foo_subject x w =
     (if x < length w then (Inr (length w), w @ [w ! x]) else (Inl (TypeError ''inputs''), w))"

definition set_value :: "int \<Rightarrow> (addr, int list) modifier_fn" where
  "set_value v x w = (Inr (), w[x := v])"

definition inc :: "(addr, int list) perform_fn" where
  "inc s w = (Inr Void, w[s := w ! s + 1])"

definition foo_heap :: "(addr, addr, int list) Heap" where
  "foo_heap =
     \<lparr>contexts = [\<lparr>inputs = foo_inputs, subject = foo_subject, modifiers = 0, performs = 0\<rparr>],
      modifier_arrays = [[set_value 5]], perform_arrays = [[inc]]\<rparr>"

definition foo_log :: "(addr, addr) event list" where
  "foo_log = [CallInputs, CallModifier 0 0, CallSubject 0, CallPerform 0 1, PerformSettled 0,
              CallTest 1, TestSettled]"

definition foo_suite :: "(addr, addr, int list) Suite" where
  "foo_suite = \<lparr>heap = foo_heap, tests = []\<rparr>"



text \<open>
  A chain whose modifier reads another object: it copies the cell at a fixed address into
  its input. \<open>write_subject\<close> is a test body that writes into its subject, \<open>pass\<close> one
  that does nothing.
\<close>

definition copy_from :: "addr \<Rightarrow> (addr, int list) modifier_fn" where
  "copy_from a x w = (Inr (), if a < length w then w[x := w ! a] else w)"

definition write_subject :: "int \<Rightarrow> (addr, int list) perform_fn" where
  "write_subject v s w = (Inr Void, w[s := v])"

definition pass :: "(addr, int list) perform_fn" where
  "pass s w = (Inr Void, w)"

definition leak_heap :: "(addr, addr, int list) Heap" where
  "leak_heap =
     \<lparr>contexts = [\<lparr>inputs = foo_inputs, subject = foo_subject, modifiers = 0, performs = 0\<rparr>],
      modifier_arrays = [[copy_from 1]], perform_arrays = [[]]\<rparr>"

section \<open>The compile-time transform (src/src/transform.ts)\<close>

subsection \<open>The syntax tree\<close>

text \<open>
  The tree is the TypeScript compiler's, an input of the transform: a constructor for each
  node kind whose fields the transform reads, and \<open>OtherNode\<close> for every other kind. The two
  numbers of a node are \<^verbatim>\<open>getStart()\<close> and \<^verbatim>\<open>getEnd()\<close>, offsets into the source text.
  The fields are, in the order of the constructors below: an identifier's \<^verbatim>\<open>text\<close>; a
  token's \<^verbatim>\<open>kind\<close>; \<^verbatim>\<open>expression\<close> and \<^verbatim>\<open>name\<close>; \<^verbatim>\<open>expression\<close>, \<^verbatim>\<open>typeArguments\<close> and
  \<^verbatim>\<open>arguments\<close>; \<^verbatim>\<open>left\<close>, \<^verbatim>\<open>operatorToken\<close> and \<^verbatim>\<open>right\<close>; an arrow function's
  \<^verbatim>\<open>modifiers\<close>, its type parameters, parameters and return type, its
  \<^verbatim>\<open>equalsGreaterThanToken\<close> and its \<^verbatim>\<open>body\<close>; a function expression's \<^verbatim>\<open>modifiers\<close>, its
  asterisk, name, type parameters, parameters and return type, and its \<^verbatim>\<open>body\<close>; a block's
  \<^verbatim>\<open>statements\<close>; a statement's \<^verbatim>\<open>expression\<close>; an object literal's \<^verbatim>\<open>properties\<close>;
  \<^verbatim>\<open>expression\<close> and \<^verbatim>\<open>type\<close> (twice); a parenthesized \<^verbatim>\<open>expression\<close>; an import's
  \<^verbatim>\<open>importClause\<close> and \<^verbatim>\<open>moduleSpecifier\<close>; a clause's \<^verbatim>\<open>name\<close> and \<^verbatim>\<open>namedBindings\<close>; the
  \<^verbatim>\<open>elements\<close> of named imports; a specifier's \<^verbatim>\<open>propertyName\<close> and \<^verbatim>\<open>name\<close>; the children
  of any other node.
\<close>

datatype SyntaxKind = AsyncKeyword | EqualsToken | EqualsGreaterThanToken | OtherKind string

datatype Node =
    Identifier nat nat string
  | Token nat nat SyntaxKind
  | PropertyAccessExpression nat nat Node Node
  | CallExpression nat nat Node "Node list" "Node list"
  | BinaryExpression nat nat Node Node Node
  | ArrowFunction nat nat "Node list" "Node list" Node Node
  | FunctionExpression nat nat "Node list" "Node list" Node
  | Block nat nat "Node list"
  | ExpressionStatement nat nat Node
  | ObjectLiteralExpression nat nat "Node list"
  | AsExpression nat nat Node Node
  | SatisfiesExpression nat nat Node Node
  | ParenthesizedExpression nat nat Node
  | ImportDeclaration nat nat "Node option" Node
  | ImportClause nat nat "Node option" "Node option"
  | NamedImports nat nat "Node list"
  | ImportSpecifier nat nat "Node option" Node
  | OtherNode nat nat "Node list"

datatype SourceFile = SourceFile (statements: "Node list")

fun getStart :: "Node \<Rightarrow> nat" where
  "getStart (Identifier s e _) = s"
| "getStart (Token s e _) = s"
| "getStart (PropertyAccessExpression s e _ _) = s"
| "getStart (CallExpression s e _ _ _) = s"
| "getStart (BinaryExpression s e _ _ _) = s"
| "getStart (ArrowFunction s e _ _ _ _) = s"
| "getStart (FunctionExpression s e _ _ _) = s"
| "getStart (Block s e _) = s"
| "getStart (ExpressionStatement s e _) = s"
| "getStart (ObjectLiteralExpression s e _) = s"
| "getStart (AsExpression s e _ _) = s"
| "getStart (SatisfiesExpression s e _ _) = s"
| "getStart (ParenthesizedExpression s e _) = s"
| "getStart (ImportDeclaration s e _ _) = s"
| "getStart (ImportClause s e _ _) = s"
| "getStart (NamedImports s e _) = s"
| "getStart (ImportSpecifier s e _ _) = s"
| "getStart (OtherNode s e _) = s"

fun getEnd :: "Node \<Rightarrow> nat" where
  "getEnd (Identifier s e _) = e"
| "getEnd (Token s e _) = e"
| "getEnd (PropertyAccessExpression s e _ _) = e"
| "getEnd (CallExpression s e _ _ _) = e"
| "getEnd (BinaryExpression s e _ _ _) = e"
| "getEnd (ArrowFunction s e _ _ _ _) = e"
| "getEnd (FunctionExpression s e _ _ _) = e"
| "getEnd (Block s e _) = e"
| "getEnd (ExpressionStatement s e _) = e"
| "getEnd (ObjectLiteralExpression s e _) = e"
| "getEnd (AsExpression s e _ _) = e"
| "getEnd (SatisfiesExpression s e _ _) = e"
| "getEnd (ParenthesizedExpression s e _) = e"
| "getEnd (ImportDeclaration s e _ _) = e"
| "getEnd (ImportClause s e _ _) = e"
| "getEnd (NamedImports s e _) = e"
| "getEnd (ImportSpecifier s e _ _) = e"
| "getEnd (OtherNode s e _) = e"

definition optional :: "'a option \<Rightarrow> 'a list" where
  "optional x = (case x of None \<Rightarrow> [] | Some y \<Rightarrow> [y])"

text \<open>\<^verbatim>\<open>ts.forEachChild\<close>: the children of a node, in the order the compiler visits them.\<close>

fun forEachChild :: "Node \<Rightarrow> Node list" where
  "forEachChild (Identifier _ _ _) = []"
| "forEachChild (Token _ _ _) = []"
| "forEachChild (PropertyAccessExpression _ _ expr name) = [expr, name]"
| "forEachChild (CallExpression _ _ expr typeArgs args) = expr # typeArgs @ args"
| "forEachChild (BinaryExpression _ _ left op right) = [left, op, right]"
| "forEachChild (ArrowFunction _ _ mods sig arrow body) = mods @ sig @ [arrow, body]"
| "forEachChild (FunctionExpression _ _ mods sig body) = mods @ sig @ [body]"
| "forEachChild (Block _ _ stmts) = stmts"
| "forEachChild (ExpressionStatement _ _ expr) = [expr]"
| "forEachChild (ObjectLiteralExpression _ _ props) = props"
| "forEachChild (AsExpression _ _ expr ty) = [expr, ty]"
| "forEachChild (SatisfiesExpression _ _ expr ty) = [expr, ty]"
| "forEachChild (ParenthesizedExpression _ _ expr) = [expr]"
| "forEachChild (ImportDeclaration _ _ clause spec) = optional clause @ [spec]"
| "forEachChild (ImportClause _ _ name bindings) = optional name @ optional bindings"
| "forEachChild (NamedImports _ _ elements) = elements"
| "forEachChild (ImportSpecifier _ _ propertyName name) = optional propertyName @ [name]"
| "forEachChild (OtherNode _ _ children) = children"

fun isIdentifier :: "Node \<Rightarrow> bool" where
  "isIdentifier (Identifier _ _ _) = True"
| "isIdentifier _ = False"

fun isCallExpression :: "Node \<Rightarrow> bool" where
  "isCallExpression (CallExpression _ _ _ _ _) = True"
| "isCallExpression _ = False"

text \<open>\<^verbatim>\<open>.text\<close> of an identifier; the other node kinds read here have none.\<close>

fun ident_text :: "Node \<Rightarrow> string" where
  "ident_text (Identifier _ _ t) = t"
| "ident_text _ = []"

fun arguments :: "Node \<Rightarrow> Node list" where
  "arguments (CallExpression _ _ _ _ args) = args"
| "arguments _ = []"

fun callee :: "Node \<Rightarrow> Node option" where
  "callee (CallExpression _ _ expr _ _) = Some expr"
| "callee _ = None"

subsection \<open>Recognising calls\<close>

datatype BddCallKind = Given | When | It

datatype BddModifier = Skip | Only

definition kind_of_name :: "string \<Rightarrow> BddCallKind option" where
  "kind_of_name name =
     (if name = ''given'' then Some Given else if name = ''when'' then Some When
      else if name = ''it'' then Some It else None)"

definition modifier_of_name :: "string \<Rightarrow> BddModifier option" where
  "modifier_of_name prop =
     (if prop = ''skip'' then Some Skip else if prop = ''only'' then Some Only else None)"

fun modifier_name :: "BddModifier \<Rightarrow> string" where
  "modifier_name Skip = ''skip''"
| "modifier_name Only = ''only''"

definition parseBddCall :: "Node \<Rightarrow> (BddCallKind \<times> BddModifier option) option" where
  "parseBddCall n =
     (case n of
        CallExpression _ _ expr _ _ \<Rightarrow>
          (case expr of
             Identifier _ _ name \<Rightarrow>
               (case kind_of_name name of Some k \<Rightarrow> Some (k, None) | None \<Rightarrow> None)
           | PropertyAccessExpression _ _ obj prop \<Rightarrow>
               (case obj of
                  Identifier _ _ oname \<Rightarrow>
                    (case kind_of_name oname of
                       Some k \<Rightarrow> (case modifier_of_name (ident_text prop) of
                                    Some m \<Rightarrow> Some (k, Some m) | None \<Rightarrow> None)
                     | None \<Rightarrow> None)
                | _ \<Rightarrow> None)
           | _ \<Rightarrow> None)
      | _ \<Rightarrow> None)"

function referencesIdentifier :: "Node \<Rightarrow> string \<Rightarrow> bool \<Rightarrow> bool" where
  "referencesIdentifier node name skipItCallbacks =
     (if isIdentifier node \<and> ident_text node = name then True
      else if skipItCallbacks \<and> isCallExpression node \<and> parseBddCall node \<noteq> None then
        (case arguments node of
           [] \<Rightarrow> False
         | firstArg # _ \<Rightarrow> referencesIdentifier firstArg name skipItCallbacks)
      else list_ex (\<lambda>child. referencesIdentifier child name skipItCallbacks) (forEachChild node))"
  by pat_completeness auto
termination
proof -
  have in_list: "size x \<le> size_list size xs" if "x \<in> set xs" for x :: Node and xs
    using that by (induction xs) auto
  have child: "size c < size n" if "c \<in> set (forEachChild n)" for c n
    using that by (cases n) (auto simp: optional_def split: option.splits dest!: in_list)
  have first: "size c < size n" if "arguments n = c # cs" for c cs n
    using that by (cases n) (auto intro: child)
  show ?thesis
    by (relation "measure (\<lambda>(node, name, skip). size node)") (auto simp: child first)
qed

declare referencesIdentifier.simps [simp del]

record BddCall =
  kind :: BddCallKind
  node :: Node
  depth :: nat
  modifier :: "BddModifier option"

function visit :: "Node \<Rightarrow> nat \<Rightarrow> bool \<Rightarrow> BddCall list" where
  "visit n d insideGiven =
     (case (if isCallExpression n then parseBddCall n else None) of
        Some parsed \<Rightarrow>
          (if fst parsed = Given \<or> insideGiven
           then [\<lparr>kind = fst parsed, node = n, depth = d, modifier = snd parsed\<rparr>] else []) @
          concat (map (\<lambda>child. visit child (d + 1) (insideGiven \<or> fst parsed = Given))
                      (forEachChild n))
      | None \<Rightarrow> concat (map (\<lambda>child. visit child d insideGiven) (forEachChild n)))"
  by pat_completeness auto
termination
proof -
  have in_list: "size x \<le> size_list size xs" if "x \<in> set xs" for x :: Node and xs
    using that by (induction xs) auto
  have child: "size c < size n" if "c \<in> set (forEachChild n)" for c n
    using that by (cases n) (auto simp: optional_def split: option.splits dest!: in_list)
  show ?thesis
    by (relation "measure (\<lambda>(n, d, g). size n)") (auto simp: child)
qed

declare visit.simps [simp del]

definition collectBddCalls :: "SourceFile \<Rightarrow> BddCall list" where
  "collectBddCalls sourceFile = concat (map (\<lambda>child. visit child 0 False) (statements sourceFile))"

subsection \<open>Source text\<close>

text \<open>\<^verbatim>\<open>code.slice(start, end)\<close> for offsets that are not negative.\<close>

definition slice :: "string \<Rightarrow> nat \<Rightarrow> nat \<Rightarrow> string" where
  "slice code start stop = take (stop - start) (drop start code)"

definition getNodeText :: "string \<Rightarrow> Node \<Rightarrow> string" where
  "getNodeText code n = slice code (getStart n) (getEnd n)"

text \<open>\<^verbatim>\<open>parts.join(sep)\<close>.\<close>

fun join :: "string \<Rightarrow> string list \<Rightarrow> string" where
  "join sep [] = []"
| "join sep [x] = x"
| "join sep (x # y # ys) = x @ sep @ join sep (y # ys)"

fun isObjectLiteralLike :: "Node \<Rightarrow> bool" where
  "isObjectLiteralLike (ObjectLiteralExpression _ _ _) = True"
| "isObjectLiteralLike (AsExpression _ _ expr _) = isObjectLiteralLike expr"
| "isObjectLiteralLike (SatisfiesExpression _ _ expr _) = isObjectLiteralLike expr"
| "isObjectLiteralLike (ParenthesizedExpression _ _ expr) = isObjectLiteralLike expr"
| "isObjectLiteralLike _ = False"

fun isFunctionLike :: "Node \<Rightarrow> bool" where
  "isFunctionLike (ArrowFunction _ _ _ _ _ _) = True"
| "isFunctionLike (FunctionExpression _ _ _ _ _) = True"
| "isFunctionLike _ = False"

text \<open>\<^verbatim>\<open>getCallbackArg\<close>: the last argument that is an arrow function or a function expression.\<close>

definition getCallbackArg :: "Node \<Rightarrow> Node option" where
  "getCallbackArg n = List.find isFunctionLike (rev (arguments n))"

definition getBodyStatements :: "Node \<Rightarrow> Node list option" where
  "getBodyStatements callback =
     (case callback of
        ArrowFunction _ _ _ _ _ body \<Rightarrow>
          (case body of Block _ _ stmts \<Rightarrow> Some stmts | _ \<Rightarrow> None)
      | FunctionExpression _ _ _ _ body \<Rightarrow>
          (case body of Block _ _ stmts \<Rightarrow> Some stmts | _ \<Rightarrow> None)
      | _ \<Rightarrow> None)"

definition getCallbackHeaderEnd :: "Node \<Rightarrow> nat" where
  "getCallbackHeaderEnd callback =
     (case callback of
        ArrowFunction _ _ _ _ arrow _ \<Rightarrow> getEnd arrow
      | FunctionExpression _ _ _ _ body \<Rightarrow> getStart body
      | _ \<Rightarrow> getStart callback)"

definition callback_modifiers :: "Node \<Rightarrow> Node list" where
  "callback_modifiers callback =
     (case callback of
        ArrowFunction _ _ mods _ _ _ \<Rightarrow> mods
      | FunctionExpression _ _ mods _ _ \<Rightarrow> mods
      | _ \<Rightarrow> [])"

definition isAsyncKeyword :: "Node \<Rightarrow> bool" where
  "isAsyncKeyword m = (case m of Token _ _ k \<Rightarrow> k = AsyncKeyword | _ \<Rightarrow> False)"

definition asyncPrefix :: "Node \<Rightarrow> string" where
  "asyncPrefix callback = (if list_ex isAsyncKeyword (callback_modifiers callback) then ''async '' else [])"

text \<open>
  The statement checks share their first three tests: an expression statement, whose
  expression is a binary expression, whose operator is \<^verbatim>\<open>=\<close>. The result is the pair of
  \<^verbatim>\<open>left\<close> and \<^verbatim>\<open>right\<close>.
\<close>

definition assignment :: "Node \<Rightarrow> (Node \<times> Node) option" where
  "assignment stmt =
     (case stmt of
        ExpressionStatement _ _ expr \<Rightarrow>
          (case expr of
             BinaryExpression _ _ left op right \<Rightarrow>
               (case op of
                  Token _ _ k \<Rightarrow> if k = EqualsToken then Some (left, right) else None
                | _ \<Rightarrow> None)
           | _ \<Rightarrow> None)
      | _ \<Rightarrow> None)"

definition isInputsAssignment :: "Node \<Rightarrow> bool" where
  "isInputsAssignment stmt =
     (case assignment stmt of
        Some (left, right) \<Rightarrow> isIdentifier left \<and> ident_text left = ''$inputs''
      | None \<Rightarrow> False)"

definition isSubjectAssignment :: "Node \<Rightarrow> bool" where
  "isSubjectAssignment stmt =
     (case assignment stmt of
        Some (left, right) \<Rightarrow> isIdentifier left \<and> ident_text left = ''$subject''
      | None \<Rightarrow> False)"

definition isInputsModifier :: "Node \<Rightarrow> bool" where
  "isInputsModifier stmt =
     (case assignment stmt of
        Some (left, right) \<Rightarrow>
          (case left of
             PropertyAccessExpression _ _ obj _ \<Rightarrow> isIdentifier obj \<and> ident_text obj = ''$inputs''
           | _ \<Rightarrow> False)
      | None \<Rightarrow> False)"

definition isItCall :: "Node \<Rightarrow> bool" where
  "isItCall stmt =
     (case stmt of
        ExpressionStatement _ _ expr \<Rightarrow>
          isCallExpression expr \<and>
          (case parseBddCall expr of Some parsed \<Rightarrow> fst parsed = It | None \<Rightarrow> False)
      | _ \<Rightarrow> False)"

definition isPerformStatement :: "Node \<Rightarrow> bool" where
  "isPerformStatement stmt =
     (if isItCall stmt then False else referencesIdentifier stmt ''$subject'' True)"

subsection \<open>The edit buffer (the \<^verbatim>\<open>magic-string\<close> package)\<close>

text \<open>
  \<^verbatim>\<open>MagicString\<close> is the library's: the original text cut into chunks, each with an intro, a
  content and an outro. The operations are written after the library's documented
  behaviour, its errors included: a position inside a chunk that an edit has given a
  content cannot be split; an overwrite needs a range that is not empty and ends inside
  the text.
\<close>

record Chunk =
  chunk_start :: nat
  chunk_end :: nat
  chunk_intro :: string
  content :: string
  chunk_outro :: string
  edited :: bool

record MagicString =
  original :: string
  intro :: string
  outro :: string
  chunks :: "Chunk list"

definition new_MagicString :: "string \<Rightarrow> MagicString" where
  "new_MagicString code =
     \<lparr>original = code, intro = [], outro = [],
      chunks = [\<lparr>chunk_start = 0, chunk_end = length code, chunk_intro = [], content = code,
                 chunk_outro = [], edited = False\<rparr>]\<rparr>"

definition chunk_split :: "string \<Rightarrow> Chunk \<Rightarrow> nat \<Rightarrow> Chunk list" where
  "chunk_split text c index =
     (if edited c
      then [c\<lparr>chunk_end := index, content := [], chunk_outro := []\<rparr>,
            \<lparr>chunk_start = index, chunk_end = chunk_end c, chunk_intro = [], content = [],
             chunk_outro = [], edited = True\<rparr>]
      else [c\<lparr>chunk_end := index, content := slice text (chunk_start c) index, chunk_outro := []\<rparr>,
            \<lparr>chunk_start = index, chunk_end = chunk_end c, chunk_intro = [],
             content = slice text index (chunk_end c), chunk_outro = chunk_outro c,
             edited = False\<rparr>])"

fun split_chunks :: "string \<Rightarrow> nat \<Rightarrow> Chunk list \<Rightarrow> js_error + Chunk list" where
  "split_chunks text index [] = Inr []"
| "split_chunks text index (c # cs) =
     (if chunk_start c < index \<and> index < chunk_end c
      then (if edited c \<and> content c \<noteq> []
            then Inl (Thrown ''Cannot split a chunk that has already been edited'')
            else Inr (chunk_split text c index @ cs))
      else (case split_chunks text index cs of
              Inl e \<Rightarrow> Inl e
            | Inr cs' \<Rightarrow> Inr (c # cs')))"

definition ms_split :: "nat \<Rightarrow> MagicString \<Rightarrow> js_error + MagicString" where
  "ms_split index s =
     (case split_chunks (original s) index (chunks s) of
        Inl e \<Rightarrow> Inl e
      | Inr cs \<Rightarrow> Inr (s\<lparr>chunks := cs\<rparr>))"

definition and_then :: "js_error + 'a \<Rightarrow> ('a \<Rightarrow> js_error + 'b) \<Rightarrow> js_error + 'b" where
  "and_then r f = (case r of Inl e \<Rightarrow> Inl e | Inr x \<Rightarrow> f x)"

definition chunk_edit :: "string \<Rightarrow> Chunk \<Rightarrow> Chunk" where
  "chunk_edit text c = c\<lparr>content := text, chunk_intro := [], chunk_outro := [], edited := True\<rparr>"

definition within :: "nat \<Rightarrow> nat \<Rightarrow> Chunk \<Rightarrow> bool" where
  "within start stop c \<longleftrightarrow> start \<le> chunk_start c \<and> chunk_end c \<le> stop"

definition ms_overwrite :: "nat \<Rightarrow> nat \<Rightarrow> string \<Rightarrow> MagicString \<Rightarrow> js_error + MagicString" where
  "ms_overwrite start stop text s =
     (if stop > length (original s) then Inl (Thrown ''end is out of bounds'')
      else if start = stop then Inl (Thrown ''Cannot overwrite a zero-length range'')
      else if stop < start then Inl (Thrown ''Cannot overwrite across a split point'')
      else and_then (ms_split start s) (\<lambda>s1. and_then (ms_split stop s1) (\<lambda>s2.
        Inr (s2\<lparr>chunks := map (\<lambda>c. if chunk_start c = start then chunk_edit text c
                                     else if within start stop c then chunk_edit [] c else c)
                                (chunks s2)\<rparr>))))"

definition ms_remove :: "nat \<Rightarrow> nat \<Rightarrow> MagicString \<Rightarrow> js_error + MagicString" where
  "ms_remove start stop s =
     (if start = stop then Inr s
      else if stop > length (original s) then Inl (Thrown ''Character is out of bounds'')
      else if start > stop then Inl (Thrown ''end must be greater than start'')
      else and_then (ms_split start s) (\<lambda>s1. and_then (ms_split stop s1) (\<lambda>s2.
        Inr (s2\<lparr>chunks := map (\<lambda>c. if within start stop c then chunk_edit [] c else c)
                                (chunks s2)\<rparr>))))"

definition ms_appendLeft :: "nat \<Rightarrow> string \<Rightarrow> MagicString \<Rightarrow> js_error + MagicString" where
  "ms_appendLeft index text s =
     and_then (ms_split index s) (\<lambda>s1.
       if list_ex (\<lambda>c. chunk_end c = index) (chunks s1)
       then Inr (s1\<lparr>chunks := map (\<lambda>c. if chunk_end c = index
                                         then c\<lparr>chunk_outro := chunk_outro c @ text\<rparr> else c)
                                    (chunks s1)\<rparr>)
       else Inr (s1\<lparr>intro := intro s1 @ text\<rparr>))"

definition ms_prepend :: "string \<Rightarrow> MagicString \<Rightarrow> MagicString" where
  "ms_prepend text s = s\<lparr>intro := text @ intro s\<rparr>"

definition chunk_toString :: "Chunk \<Rightarrow> string" where
  "chunk_toString c = chunk_intro c @ content c @ chunk_outro c"

definition ms_toString :: "MagicString \<Rightarrow> string" where
  "ms_toString s = intro s @ concat (map chunk_toString (chunks s)) @ outro s"

subsection \<open>Rewriting one call\<close>

text \<open>
  The loop of both \<^verbatim>\<open>transformGiven\<close> and \<^verbatim>\<open>transformWhen\<close> that removes statements: each
  from its start to its end and on over the line terminators that follow it.
\<close>

function skip_line_terminators :: "string \<Rightarrow> nat \<Rightarrow> nat" where
  "skip_line_terminators code pos =
     (if pos < length code \<and> (code ! pos = CHR 0x0A \<or> code ! pos = CHR 0x0D)
      then skip_line_terminators code (Suc pos) else pos)"
  by pat_completeness auto
termination
  by (relation "measure (\<lambda>(code, pos). length code - pos)") auto

declare skip_line_terminators.simps [simp del]

fun remove_statements :: "string \<Rightarrow> Node list \<Rightarrow> MagicString \<Rightarrow> js_error + MagicString" where
  "remove_statements code [] s = Inr s"
| "remove_statements code (stmt # stmts) s =
     and_then (ms_remove (getStart stmt) (skip_line_terminators code (getEnd stmt)) s)
       (remove_statements code stmts)"

text \<open>The text of a factory body: an object literal gets parentheses.\<close>

definition factory_body :: "string \<Rightarrow> Node \<Rightarrow> string" where
  "factory_body code right =
     (if isObjectLiteralLike right then ''('' @ getNodeText code right @ '')''
      else getNodeText code right)"

text \<open>The first loop of \<^verbatim>\<open>transformGiven\<close>, over \<^verbatim>\<open>inputsExpr\<close>, \<^verbatim>\<open>subjectExpr\<close> and \<^verbatim>\<open>stmtsToRemove\<close>.\<close>

fun find_assignments ::
  "string \<Rightarrow> Node list \<Rightarrow> string option \<times> string option \<times> Node list \<Rightarrow>
   string option \<times> string option \<times> Node list" where
  "find_assignments code [] found = found"
| "find_assignments code (stmt # stmts) (inputsExpr, subjectExpr, stmtsToRemove) =
     (if isInputsAssignment stmt then
        find_assignments code stmts
          (Some (factory_body code (snd (the (assignment stmt)))), subjectExpr, stmtsToRemove @ [stmt])
      else if isSubjectAssignment stmt then
        find_assignments code stmts
          (inputsExpr, Some (factory_body code (snd (the (assignment stmt)))), stmtsToRemove @ [stmt])
      else find_assignments code stmts (inputsExpr, subjectExpr, stmtsToRemove))"

definition given_config :: "string option \<Rightarrow> string option \<Rightarrow> string" where
  "given_config inputsExpr subjectExpr =
     ''{ '' @ join '', ''
        ((case inputsExpr of Some e \<Rightarrow> [''inputs: () => '' @ e] | None \<Rightarrow> []) @
         (case subjectExpr of Some e \<Rightarrow> [''subject: ($inputs) => '' @ e] | None \<Rightarrow> [])) @ '' }''"

definition transformGiven :: "BddCall \<Rightarrow> string \<Rightarrow> MagicString \<Rightarrow> js_error + MagicString" where
  "transformGiven call code s =
     (case getCallbackArg (node call) of
        None \<Rightarrow> Inr s
      | Some callback \<Rightarrow>
     (case getBodyStatements callback of
        None \<Rightarrow> Inr s
      | Some stmts \<Rightarrow>
     (case find_assignments code stmts (None, None, []) of
        (inputsExpr, subjectExpr, stmtsToRemove) \<Rightarrow>
     and_then (remove_statements code stmtsToRemove s) (\<lambda>s.
     (case callee (node call) of
        None \<Rightarrow> Inl (TypeError ''node.expression'')
      | Some expr \<Rightarrow>
     and_then (ms_overwrite (getStart expr) (getEnd expr) ''__given'' s) (\<lambda>s.
     (case arguments (node call) of
        [] \<Rightarrow> Inl (TypeError ''descArg'')
      | descArg # _ \<Rightarrow>
     and_then (ms_appendLeft (getEnd descArg)
                 ('', '' @ given_config inputsExpr subjectExpr) s) (\<lambda>s.
     and_then (ms_overwrite (getStart callback) (getCallbackHeaderEnd callback)
                 (asyncPrefix callback @ ''(__ctx) =>'') s) (\<lambda>s.
     (case modifier call of
        None \<Rightarrow> Inr s
      | Some m \<Rightarrow>
          ms_appendLeft (getEnd (last (arguments (node call))))
            ('', describe.'' @ modifier_name m) s))))))))))"

text \<open>The classifying loop of \<^verbatim>\<open>transformWhen\<close>, over the three statement lists.\<close>

fun classify ::
  "Node list \<Rightarrow> Node list \<times> Node list \<times> Node list \<Rightarrow> Node list \<times> Node list \<times> Node list" where
  "classify [] classified = classified"
| "classify (stmt # stmts) (modifierStmts, performStmts, bodyStmts) =
     (if isInputsModifier stmt then
        classify stmts (modifierStmts @ [stmt], performStmts, bodyStmts)
      else if isPerformStatement stmt then
        classify stmts (modifierStmts, performStmts @ [stmt], bodyStmts)
      else classify stmts (modifierStmts, performStmts, bodyStmts @ [stmt]))"

definition when_config :: "string \<Rightarrow> Node list \<Rightarrow> Node list \<Rightarrow> string" where
  "when_config code modifierStmts performStmts =
     ''{ '' @ join '', ''
        ((if length modifierStmts > 0
          then [''modifier: ($inputs) => { '' @ join '' '' (map (getNodeText code) modifierStmts) @ '' }'']
          else []) @
         (if length performStmts > 0
          then [''perform: ($subject) => { '' @ join '' '' (map (getNodeText code) performStmts) @ '' }'']
          else [])) @ '' }''"

definition transformWhen :: "BddCall \<Rightarrow> string \<Rightarrow> MagicString \<Rightarrow> js_error + MagicString" where
  "transformWhen call code s =
     (case getCallbackArg (node call) of
        None \<Rightarrow> Inr s
      | Some callback \<Rightarrow>
     (case getBodyStatements callback of
        None \<Rightarrow> Inr s
      | Some stmts \<Rightarrow>
     (case classify stmts ([], [], []) of
        (modifierStmts, performStmts, bodyStmts) \<Rightarrow>
     and_then (remove_statements code (modifierStmts @ performStmts) s) (\<lambda>s.
     (case callee (node call) of
        None \<Rightarrow> Inl (TypeError ''node.expression'')
      | Some expr \<Rightarrow>
     and_then (ms_overwrite (getStart expr) (getEnd expr) ''__when'' s) (\<lambda>s.
     (case arguments (node call) of
        [] \<Rightarrow> Inl (TypeError ''descArg'')
      | descArg # _ \<Rightarrow>
     and_then (ms_appendLeft (getEnd descArg)
                 ('', '' @ when_config code modifierStmts performStmts) s) (\<lambda>s.
     and_then (ms_overwrite (getStart callback) (getCallbackHeaderEnd callback)
                 (asyncPrefix callback @ ''(__ctx) =>'') s) (\<lambda>s.
     (case modifier call of
        Some m \<Rightarrow>
          ms_appendLeft (getEnd (last (arguments (node call))))
            ('', __ctx, describe.'' @ modifier_name m) s
      | None \<Rightarrow>
          ms_appendLeft (getEnd (last (arguments (node call)))) '', __ctx'' s))))))))))"

definition transformIt :: "BddCall \<Rightarrow> string \<Rightarrow> MagicString \<Rightarrow> js_error + MagicString" where
  "transformIt call code s =
     (case getCallbackArg (node call) of
        None \<Rightarrow> Inr s
      | Some callback \<Rightarrow>
     (case callee (node call) of
        None \<Rightarrow> Inl (TypeError ''node.expression'')
      | Some expr \<Rightarrow>
     and_then (ms_overwrite (getStart expr) (getEnd expr) ''__it'' s) (\<lambda>s.
     and_then (ms_overwrite (getStart callback) (getCallbackHeaderEnd callback)
                 (asyncPrefix callback @ ''($subject) =>'') s) (\<lambda>s.
     (case modifier call of
        Some m \<Rightarrow>
          ms_appendLeft (getEnd (last (arguments (node call))))
            ('', __ctx, test.'' @ modifier_name m) s
      | None \<Rightarrow>
          ms_appendLeft (getEnd (last (arguments (node call)))) '', __ctx'' s)))))"

subsection \<open>Rewriting a file\<close>

definition import_names :: "Node \<Rightarrow> string list" where
  "import_names stmt =
     (case stmt of
        ImportDeclaration _ _ clause _ \<Rightarrow>
          (case clause of
             Some (ImportClause _ _ _ (Some (NamedImports _ _ elements))) \<Rightarrow>
               map (\<lambda>spec. case spec of ImportSpecifier _ _ _ name \<Rightarrow> ident_text name | _ \<Rightarrow> [])
                   elements
           | _ \<Rightarrow> [])
      | _ \<Rightarrow> [])"

definition importsGiven :: "SourceFile \<Rightarrow> bool" where
  "importsGiven sourceFile =
     list_ex (\<lambda>stmt. list_ex (\<lambda>name. name = ''given'') (import_names stmt)) (statements sourceFile)"

text \<open>A \<^verbatim>\<open>Set<string>\<close> keeps its elements in insertion order.\<close>

definition set_add :: "string \<Rightarrow> string list \<Rightarrow> string list" where
  "set_add x xs = (if x \<in> set xs then xs else xs @ [x])"

fun transform_calls ::
  "BddCall list \<Rightarrow> string \<Rightarrow> MagicString \<times> string list \<times> string list \<Rightarrow>
   js_error + MagicString \<times> string list \<times> string list" where
  "transform_calls [] code state = Inr state"
| "transform_calls (call # calls) code (s, usedHelpers, usedVitestImports) =
     (case kind call of
        Given \<Rightarrow>
          and_then (transformGiven call code s) (\<lambda>s.
            transform_calls calls code
              (s, set_add ''__given'' usedHelpers,
               if modifier call \<noteq> None then set_add ''describe'' usedVitestImports
               else usedVitestImports))
      | When \<Rightarrow>
          and_then (transformWhen call code s) (\<lambda>s.
            transform_calls calls code
              (s, set_add ''__when'' usedHelpers,
               if modifier call \<noteq> None then set_add ''describe'' usedVitestImports
               else usedVitestImports))
      | It \<Rightarrow>
          and_then (transformIt call code s) (\<lambda>s.
            transform_calls calls code
              (s, set_add ''__it'' usedHelpers,
               if modifier call \<noteq> None then set_add ''test'' usedVitestImports
               else usedVitestImports)))"

text \<open>\<^verbatim>\<open>calls.sort((a, b) => b.depth - a.depth)\<close>: stable, deepest first.\<close>

definition sort_deepest_first :: "BddCall list \<Rightarrow> BddCall list" where
  "sort_deepest_first calls = sort_key (\<lambda>call. - int (depth call)) calls"

definition import_lines :: "string list \<Rightarrow> string list \<Rightarrow> string" where
  \<open>import_lines usedHelpers usedVitestImports =
     (''import { '' @ join '', '' (sort usedHelpers) @
        '' } from "@michaelhelvey/vitest-bdd/runtime";'' @ [CHR 0x0A]) @
     (if length usedVitestImports > 0
      then ''import { '' @ join '', '' (sort usedVitestImports) @ '' } from "vitest";'' @ [CHR 0x0A]
      else [])\<close>

record TransformResult =
  result_code :: string
  result_map_source :: string

text \<open>
  \<^verbatim>\<open>transformBddSyntax(code, id)\<close>; \<open>sourceFile\<close> is the tree that \<^verbatim>\<open>ts.createSourceFile\<close>
  returns for \<open>code\<close>. \<open>None\<close> is \<^verbatim>\<open>null\<close>. Of the source map only its \<^verbatim>\<open>source\<close> is kept.
\<close>

definition transformBddSyntax ::
  "string \<Rightarrow> string \<Rightarrow> SourceFile \<Rightarrow> js_error + TransformResult option" where
  "transformBddSyntax code fileId sourceFile =
     (if importsGiven sourceFile then Inr None
      else if length (collectBddCalls sourceFile) = 0 then Inr None
      else
        and_then
          (transform_calls (sort_deepest_first (collectBddCalls sourceFile)) code
             (new_MagicString code, [], []))
          (\<lambda>(s, usedHelpers, usedVitestImports).
             Inr (Some \<lparr>result_code =
                          ms_toString (ms_prepend
                            (import_lines usedHelpers usedVitestImports @ [CHR 0x0A]) s),
                        result_map_source = fileId\<rparr>)))"

subsection \<open>Where a node stands in the tree\<close>

text \<open>
  What the claims say of the tree, in the specification's words: a call is recognised by
  its callee alone; a node is nested in a call when that call is one of its ancestors.
  \<open>occurrences\<close> lists every node of a subtree in source order, each with its ancestors,
  nearest first.
\<close>

definition isRecognized :: "Node \<Rightarrow> bool" where
  "isRecognized n \<longleftrightarrow> isCallExpression n \<and> parseBddCall n \<noteq> None"

definition isGivenCall :: "Node \<Rightarrow> bool" where
  "isGivenCall n \<longleftrightarrow>
     isCallExpression n \<and> (case parseBddCall n of Some parsed \<Rightarrow> fst parsed = Given | None \<Rightarrow> False)"

function occurrences :: "Node list \<Rightarrow> Node \<Rightarrow> (Node list \<times> Node) list" where
  "occurrences ancestors n =
     (ancestors, n) # concat (map (occurrences (n # ancestors)) (forEachChild n))"
  by pat_completeness auto
termination
proof -
  have in_list: "size x \<le> size_list size xs" if "x \<in> set xs" for x :: Node and xs
    using that by (induction xs) auto
  have child: "size c < size n" if "c \<in> set (forEachChild n)" for c n
    using that by (cases n) (auto simp: optional_def split: option.splits dest!: in_list)
  show ?thesis
    by (relation "measure (\<lambda>(ancestors, n). size n)") (auto simp: child)
qed

declare occurrences.simps [simp del]

definition file_occurrences :: "SourceFile \<Rightarrow> (Node list \<times> Node) list" where
  "file_occurrences sourceFile = concat (map (occurrences []) (statements sourceFile))"

text \<open>Whether a recognised \<^verbatim>\<open>given\<close> call stands anywhere in a subtree, in a file.\<close>

function containsGivenCall :: "Node \<Rightarrow> bool" where
  "containsGivenCall n \<longleftrightarrow> isGivenCall n \<or> list_ex containsGivenCall (forEachChild n)"
  by pat_completeness auto
termination
proof -
  have in_list: "size x \<le> size_list size xs" if "x \<in> set xs" for x :: Node and xs
    using that by (induction xs) auto
  have child: "size c < size n" if "c \<in> set (forEachChild n)" for c n
    using that by (cases n) (auto simp: optional_def split: option.splits dest!: in_list)
  show ?thesis
    by (relation "measure size") (auto simp: child)
qed

declare containsGivenCall.simps [simp del]

definition containsGiven :: "SourceFile \<Rightarrow> bool" where
  "containsGiven sourceFile \<longleftrightarrow> list_ex containsGivenCall (statements sourceFile)"

text \<open>
  The calls to collect, as the specification words it: every recognised \<^verbatim>\<open>given\<close> call, and
  every recognised \<^verbatim>\<open>when\<close> or \<^verbatim>\<open>it\<close> call with a recognised \<^verbatim>\<open>given\<close> call among its
  ancestors; the nesting depth counts the enclosing recognised calls.
\<close>

definition nested_in_given :: "Node list \<times> Node \<Rightarrow> bool" where
  "nested_in_given occ \<longleftrightarrow>
     isRecognized (snd occ) \<and> (isGivenCall (snd occ) \<or> list_ex isGivenCall (fst occ))"

definition call_site :: "Node list \<times> Node \<Rightarrow> BddCall" where
  "call_site occ =
     \<lparr>kind = fst (the (parseBddCall (snd occ))), node = snd occ,
      depth = length (filter isRecognized (fst occ)),
      modifier = snd (the (parseBddCall (snd occ)))\<rparr>"

definition recognized_calls_in_given :: "SourceFile \<Rightarrow> BddCall list" where
  "recognized_calls_in_given sourceFile =
     map call_site (filter nested_in_given (file_occurrences sourceFile))"



text \<open>
  A check that a tree fits a text: every node lies inside the text and inside its parent,
  and every identifier reads as the text at its place.
\<close>

function fits :: "string \<Rightarrow> Node \<Rightarrow> bool" where
  "fits code n \<longleftrightarrow>
     getStart n \<le> getEnd n \<and> getEnd n \<le> length code \<and>
     (isIdentifier n \<longrightarrow> slice code (getStart n) (getEnd n) = ident_text n) \<and>
     list_all (\<lambda>child. getStart n \<le> getStart child \<and> getEnd child \<le> getEnd n \<and> fits code child)
       (forEachChild n)"
  by pat_completeness auto
termination
proof -
  have in_list: "size x \<le> size_list size xs" if "x \<in> set xs" for x :: Node and xs
    using that by (induction xs) auto
  have child: "size c < size n" if "c \<in> set (forEachChild n)" for c n
    using that by (cases n) (auto simp: optional_def split: option.splits dest!: in_list)
  show ?thesis
    by (relation "measure (\<lambda>(code, n). size n)") (auto simp: child)
qed

declare fits.simps [simp del]

definition file_fits :: "string \<Rightarrow> SourceFile \<Rightarrow> bool" where
  "file_fits code sourceFile \<longleftrightarrow> list_all (fits code) (statements sourceFile)"

subsection \<open>The text that the rewrite of one call leaves\<close>


definition replaced :: "nat \<Rightarrow> nat \<Rightarrow> string \<Rightarrow> Chunk" where
  "replaced p q text =
     \<lparr>chunk_start = p, chunk_end = q, chunk_intro = [], content = text, chunk_outro = [],
      edited = True\<rparr>"

definition all_before :: "nat \<Rightarrow> Chunk list \<Rightarrow> bool" where
  "all_before p cs \<longleftrightarrow> (\<forall>c\<in>set cs. chunk_start c < chunk_end c \<and> chunk_end c \<le> p)"

definition all_after :: "nat \<Rightarrow> Chunk list \<Rightarrow> bool" where
  "all_after q cs \<longleftrightarrow> (\<forall>c\<in>set cs. q \<le> chunk_start c \<and> chunk_start c < chunk_end c)"







subsection \<open>Concrete files\<close>



definition c4_code :: string where
  \<open>c4_code =
     ''import { __given } from "@michaelhelvey/vitest-bdd/runtime";'' @
     [CHR 0x0A] @
     ''given("x", () => {});''\<close>

definition c4_tree :: SourceFile where
  "c4_tree =
     SourceFile [ImportDeclaration 0 60 (Some (ImportClause 7 18 None (Some (NamedImports 7 18
       [ImportSpecifier 9 16 None (Identifier 9 16 ''__given'')])))) (OtherNode 24 59 []),
       ExpressionStatement 61 82 (CallExpression 61 81 (Identifier 61 66 ''given'') []
       [OtherNode 67 70 [], ArrowFunction 72 80 [] [] (Token 75 77 EqualsGreaterThanToken)
       (Block 78 80 [])])]"











definition c10_code :: string where
  \<open>c10_code =
     ''given("x", cb);''\<close>

definition c10_tree :: SourceFile where
  "c10_tree =
     SourceFile [ExpressionStatement 0 15 (CallExpression 0 14 (Identifier 0 5 ''given'') []
       [OtherNode 6 9 [], Identifier 11 13 ''cb''])]"

definition plain_code :: string where
  \<open>plain_code =
     ''import { describe, it, expect } from "vitest";'' @
     [CHR 0x0A] @
     ''describe("a", () => { it("b", () => {}); });''\<close>

definition plain_tree :: SourceFile where
  "plain_tree =
     SourceFile [ImportDeclaration 0 46 (Some (ImportClause 7 31 None (Some (NamedImports 7 31
       [ImportSpecifier 9 17 None (Identifier 9 17 ''describe''), ImportSpecifier 19 21 None
       (Identifier 19 21 ''it''), ImportSpecifier 23 29 None (Identifier 23 29
       ''expect'')])))) (OtherNode 37 45 []), ExpressionStatement 47 91 (CallExpression 47
       90 (Identifier 47 55 ''describe'') [] [OtherNode 56 59 [], ArrowFunction 61 89 [] []
       (Token 64 66 EqualsGreaterThanToken) (Block 67 89 [ExpressionStatement 69 87
       (CallExpression 69 86 (Identifier 69 71 ''it'') [] [OtherNode 72 75 [], ArrowFunction
       77 85 [] [] (Token 80 82 EqualsGreaterThanToken) (Block 83 85 [])])])])]"




























section \<open>Properties of the runtime executor\<close>

lemma logged_run:
  "logged e f m (w, l) =
     (case m w of (Inl err, w') \<Rightarrow> (Inl err, (w', l @ [e])) | (Inr r, w') \<Rightarrow> (Inr (f r), (w', l @ [e])))"
  by (simp add: logged_def)





lemma at_append_old: "at xs a = Some x \<Longrightarrow> at (xs @ ys) a = Some x"
  by (auto simp: at_def nth_append split: if_splits)

lemma at_append_new: "at (xs @ [y]) (length xs) = Some y"
  by (simp add: at_def)


lemma when_scope_run:
  assumes "at (contexts (heap st)) parentCtx = Some p"
    and "at (modifier_arrays (heap st)) (modifiers p) = Some ms"
    and "at (perform_arrays (heap st)) (performs p) = Some ps"
  shows "when_scope config body parentCtx st =
     body (length (contexts (heap st)))
       (st\<lparr>heap := (heap st)\<lparr>
          modifier_arrays := modifier_arrays (heap st) @
            [ms @ (case cfg_modifier config of Some m \<Rightarrow> [m] | None \<Rightarrow> [])],
          perform_arrays := perform_arrays (heap st) @
            [ps @ (case cfg_perform config of Some f \<Rightarrow> [f] | None \<Rightarrow> [])],
          contexts := contexts (heap st) @
            [\<lparr>inputs = inputs p, subject = subject p,
              modifiers = length (modifier_arrays (heap st)),
              performs = length (perform_arrays (heap st))\<rparr>]\<rparr>\<rparr>)"
  using assms
  by (simp add: when_scope_def new_modifier_array_def new_perform_array_def new_context_def)















lemma foo_local:
  "allocates_fresh 0 foo_inputs" "constructs_from id foo_subject"
  by (simp_all add: allocates_fresh_def foo_inputs_def constructs_from_def foo_subject_def)

lemma foo_lookup:
  "at (contexts foo_heap) 0 =
     Some \<lparr>inputs = foo_inputs, subject = foo_subject, modifiers = 0, performs = 0\<rparr>"
  "at (modifier_arrays foo_heap) 0 = Some [set_value 5]"
  "at (perform_arrays foo_heap) 0 = Some [inc]"
  by (simp_all add: foo_heap_def at_def)

lemma foo_run: "it_case inc 0 foo_heap [] = (Inr (), [5, 7])"
  by (simp add: it_case_def foo_lookup js_bind_def js_return_def foo_inputs_def foo_subject_def
      set_value_def inc_def)

lemma foo_spied_run:
  "it_case (spy_test inc) 0 (spy_heap foo_heap) ([], []) = (Inr (), ([5, 7], foo_log))"
  by (simp add: it_case_def foo_heap_def at_def spy_heap_def spy_context_def spy_modifiers_def
      spy_performs_def spy_modifier_def spy_perform_def spy_test_def spy_inputs_def spy_subject_def
      spy_awaitable_def logged_run js_bind_def js_return_def foo_inputs_def foo_subject_def
      set_value_def inc_def foo_log_def)




lemma for_modifiers_local:
  "list_all2 touches_only_input fs ms \<Longrightarrow> x < length w \<Longrightarrow>
     for_modifiers ms x w = (fst (local_chain fs (w ! x)), w[x := snd (local_chain fs (w ! x))])"
proof (induction fs ms arbitrary: w rule: list_all2_induct)
  case Nil
  then show ?case by (simp add: js_return_def)
next
  case (Cons f fs m ms)
  from Cons.hyps(1) Cons.prems have m: "m x w = (fst (f (w ! x)), w[x := snd (f (w ! x))])"
    by (simp add: touches_only_input_def)
  show ?case
  proof (cases "f (w ! x)")
    case (Pair r v)
    with m Cons.IH [of "w[x := v]"] Cons.prems show ?thesis
      by (cases r) (simp_all add: js_bind_def)
  qed
qed

lemma for_performs_local:
  "list_all2 touches_only_subject gs ps \<Longrightarrow> s < length w \<Longrightarrow>
     for_performs ps s w = (fst (local_chain gs (w ! s)), w[s := snd (local_chain gs (w ! s))])"
proof (induction gs ps arbitrary: w rule: list_all2_induct)
  case Nil
  then show ?case by (simp add: js_return_def)
next
  case (Cons g gs p ps)
  from Cons.hyps(1) Cons.prems
  have p: "js_bind (p s) await w = (fst (g (w ! s)), w[s := snd (g (w ! s))])"
    by (simp add: touches_only_subject_def)
  show ?case
  proof (cases "g (w ! s)")
    case (Pair r v)
    with p Cons.IH [of "w[s := v]"] Cons.prems show ?thesis
      by (cases r) (auto simp: js_bind_def split: prod.splits sum.splits)
  qed
qed

lemma it_case_local:
  assumes C: "at (contexts h) ctx = Some c"
    and M: "at (modifier_arrays h) (modifiers c) = Some ms"
    and P: "at (perform_arrays h) (performs c) = Some ps"
    and I: "allocates_fresh v0 (inputs c)" and S: "constructs_from mk (subject c)"
    and F: "list_all2 touches_only_input fs ms" and G: "list_all2 touches_only_subject gs ps"
  shows "it_case t ctx h w = run_on_new_objects fs gs v0 mk t w"
proof -
  obtain r1 x where fs: "local_chain fs v0 = (r1, x)" by (cases "local_chain fs v0")
  obtain r2 s where gs: "local_chain gs (mk x) = (r2, s)" by (cases "local_chain gs (mk x)")
  have 1: "inputs c w = (Inr (length w), w @ [v0])"
    using I by (simp add: allocates_fresh_def)
  have 2: "for_modifiers ms (length w) (w @ [v0]) = (r1, w @ [x])"
    using for_modifiers_local [OF F, of "length w" "w @ [v0]"] fs by simp
  have 3: "subject c (length w) (w @ [x]) = (Inr (Suc (length w)), w @ [x, mk x])"
    using S by (simp add: constructs_from_def)
  have 4: "for_performs ps (Suc (length w)) (w @ [x, mk x]) = (r2, w @ [x, s])"
    using for_performs_local [OF G, of "Suc (length w)" "w @ [x, mk x]"] gs
    by (simp add: nth_append list_update_append)
  show ?thesis
    by (cases r1; cases r2)
       (simp_all add: it_case_def C M P js_bind_def 1 2 3 4 run_on_new_objects_def fs gs)
qed

text \<open>
  C8, as amended. Two \<^verbatim>\<open>it\<close> cases registered under the same context, run one after the
  other. When the inputs factory allocates a new object with a fixed content, the subject
  factory allocates a new object built from its argument, and every modifier and perform
  of the chain reads and writes the object it is given and nothing else, then whatever the
  first case did (its world \<open>w1\<close> is arbitrary), the second case runs on a new input object
  and a new subject object whose contents do not depend on \<open>w1\<close>: its run is the same
  function of the world that the first case left as of the world before the first case.
\<close>

theorem it_cases_isolated:
  assumes C: "at (contexts h) ctx = Some c"
    and M: "at (modifier_arrays h) (modifiers c) = Some ms"
    and P: "at (perform_arrays h) (performs c) = Some ps"
    and I: "allocates_fresh v0 (inputs c)" and S: "constructs_from mk (subject c)"
    and F: "list_all2 touches_only_input fs ms" and G: "list_all2 touches_only_subject gs ps"
    and first: "it_case t1 ctx h w0 = (r1, w1)"
  shows "it_case t2 ctx h w1 = run_on_new_objects fs gs v0 mk t2 w1 \<and>
         it_case t2 ctx h w0 = run_on_new_objects fs gs v0 mk t2 w0"
  using it_case_local [OF C M P I S F G] by simp

lemma foo_touches:
  "list_all2 touches_only_input [\<lambda>v. (Inr (), 5)] [set_value 5]"
  "list_all2 touches_only_subject [\<lambda>v. (Inr (), v + 1)] [inc]"
  by (simp_all add: touches_only_input_def set_value_def touches_only_subject_def inc_def
      js_bind_def js_return_def)

lemma foo_objects:
  "run_on_new_objects [\<lambda>v. (Inr (), 5)] [\<lambda>v. (Inr (), v + 1)] 0 id inc w =
     (Inr (), w @ [5, 7])"
  by (simp add: run_on_new_objects_def js_bind_def js_return_def inc_def nth_append
      list_update_append)

text \<open>
  The second case sees the input 5 and the subject 6 (which its own test body makes 7),
  also after a first case whose test body wrote 99 into its subject.
\<close>

theorem it_cases_isolated_witness:
  "at (contexts foo_heap) 0 =
     Some \<lparr>inputs = foo_inputs, subject = foo_subject, modifiers = 0, performs = 0\<rparr> \<and>
   allocates_fresh 0 foo_inputs \<and> constructs_from id foo_subject \<and>
   list_all2 touches_only_input [\<lambda>v. (Inr (), 5)] [set_value 5] \<and>
   list_all2 touches_only_subject [\<lambda>v. (Inr (), v + 1)] [inc] \<and>
   it_case inc 0 foo_heap [] = (Inr (), [5, 7]) \<and>
   it_case inc 0 foo_heap [5, 7] = (Inr (), [5, 7, 5, 7]) \<and>
   it_case (write_subject 99) 0 foo_heap [] = (Inr (), [5, 99]) \<and>
   it_case inc 0 foo_heap [5, 99] = (Inr (), [5, 99, 5, 7])"
proof -
  let ?c = "\<lparr>inputs = foo_inputs, subject = foo_subject, modifiers = 0, performs = 0\<rparr>"
  have C: "at (contexts foo_heap) 0 = Some ?c" by (rule foo_lookup)
  have M: "at (modifier_arrays foo_heap) (modifiers ?c) = Some [set_value 5]"
    by (simp add: foo_lookup)
  have P: "at (perform_arrays foo_heap) (performs ?c) = Some [inc]"
    by (simp add: foo_lookup)
  have I: "allocates_fresh 0 (inputs ?c)" and S: "constructs_from id (subject ?c)"
    by (simp_all add: foo_local)
  have first: "it_case (write_subject 99) 0 foo_heap [] = (Inr (), [5, 99])"
    by (simp add: it_case_def foo_lookup js_bind_def js_return_def foo_inputs_def foo_subject_def
        set_value_def inc_def write_subject_def)
  from it_cases_isolated [OF C M P I S foo_touches foo_run, of inc]
  have a: "it_case inc 0 foo_heap [5, 7] = (Inr (), [5, 7, 5, 7])"
    by (simp add: foo_objects)
  from it_cases_isolated [OF C M P I S foo_touches first, of inc]
  have b: "it_case inc 0 foo_heap [5, 99] = (Inr (), [5, 99, 5, 7])"
    by (simp add: foo_objects)
  from C foo_local(1,2) foo_touches foo_run a first b show ?thesis
    by (intro conjI)
qed

lemma leak_lookup:
  "at (contexts leak_heap) 0 =
     Some \<lparr>inputs = foo_inputs, subject = foo_subject, modifiers = 0, performs = 0\<rparr>"
  "at (modifier_arrays leak_heap) 0 = Some [copy_from 1]"
  "at (perform_arrays leak_heap) 0 = Some []"
  by (simp_all add: leak_heap_def at_def)

lemma leak_runs:
  "it_case (write_subject 99) 0 leak_heap [] = (Inr (), [0, 99])"
  "it_case pass 0 leak_heap [0, 99] = (Inr (), [0, 99, 99, 99])"
  "it_case pass 0 leak_heap [] = (Inr (), [0, 0])"
  by (simp_all add: it_case_def leak_heap_def at_def js_bind_def js_return_def foo_inputs_def
      foo_subject_def copy_from_def write_subject_def pass_def)

text \<open>
  C8 as stated, with its assumptions on the two factories only, fails for a chain whose
  modifier reads another object: here it copies the object at address 1, the subject of
  the first case, into its input. The first case's test body writes 99 into its subject;
  the second case then has the input 99 and the subject 99, where alone it has 0 and 0.
\<close>

theorem shared_state_counterexample:
  "at (contexts leak_heap) 0 =
     Some \<lparr>inputs = foo_inputs, subject = foo_subject, modifiers = 0, performs = 0\<rparr> \<and>
   at (modifier_arrays leak_heap) 0 = Some [copy_from 1] \<and>
   at (perform_arrays leak_heap) 0 = Some [] \<and>
   allocates_fresh 0 foo_inputs \<and> constructs_from id foo_subject \<and>
   it_case (write_subject 99) 0 leak_heap [] = (Inr (), [0, 99]) \<and>
   it_case pass 0 leak_heap [0, 99] = (Inr (), [0, 99, 99, 99]) \<and>
   it_case pass 0 leak_heap [] = (Inr (), [0, 0])"
  using leak_lookup foo_local(1,2) leak_runs by (intro conjI)

text \<open>
  C3. The child context that \<^verbatim>\<open>__when\<close> passes to its callback is a new object whose
  chains are new arrays: the parent's arrays with the optional modifier and perform
  appended. It has the parent's factories, and every object that existed before the call,
  the parent context and its arrays among them, is unchanged.
\<close>

theorem registerWhen_child_context:
  assumes P: "at (contexts (heap st)) parentCtx = Some p"
    and M: "at (modifier_arrays (heap st)) (modifiers p) = Some ms"
    and F: "at (perform_arrays (heap st)) (performs p) = Some ps"
  shows "registerWhen scenario config body parentCtx describeFn =
           describeFn scenario (when_scope config body parentCtx) \<and>
         (\<exists>child st'.
            when_scope config body parentCtx st = body child st' \<and>
            child = length (contexts (heap st)) \<and>
            (\<exists>c. at (contexts (heap st')) child = Some c \<and>
               inputs c = inputs p \<and> subject c = subject p \<and>
               modifiers c = length (modifier_arrays (heap st)) \<and>
               performs c = length (perform_arrays (heap st)) \<and>
               at (modifier_arrays (heap st')) (modifiers c) =
                 Some (ms @ (case cfg_modifier config of Some m \<Rightarrow> [m] | None \<Rightarrow> [])) \<and>
               at (perform_arrays (heap st')) (performs c) =
                 Some (ps @ (case cfg_perform config of Some f \<Rightarrow> [f] | None \<Rightarrow> []))) \<and>
            at (contexts (heap st')) parentCtx = Some p \<and>
            at (modifier_arrays (heap st')) (modifiers p) = Some ms \<and>
            at (perform_arrays (heap st')) (performs p) = Some ps \<and>
            take (length (contexts (heap st))) (contexts (heap st')) = contexts (heap st) \<and>
            take (length (modifier_arrays (heap st))) (modifier_arrays (heap st')) =
              modifier_arrays (heap st) \<and>
            take (length (perform_arrays (heap st))) (perform_arrays (heap st')) =
              perform_arrays (heap st) \<and>
            tests st' = tests st)"
proof -
  let ?ms' = "ms @ (case cfg_modifier config of Some m \<Rightarrow> [m] | None \<Rightarrow> [])"
  let ?ps' = "ps @ (case cfg_perform config of Some f \<Rightarrow> [f] | None \<Rightarrow> [])"
  let ?c = "\<lparr>inputs = inputs p, subject = subject p,
             modifiers = length (modifier_arrays (heap st)),
             performs = length (perform_arrays (heap st))\<rparr>"
  let ?st' = "st\<lparr>heap := (heap st)\<lparr>
                 modifier_arrays := modifier_arrays (heap st) @ [?ms'],
                 perform_arrays := perform_arrays (heap st) @ [?ps'],
                 contexts := contexts (heap st) @ [?c]\<rparr>\<rparr>"
  have run: "when_scope config body parentCtx st = body (length (contexts (heap st))) ?st'"
    using P M F by (rule when_scope_run)
  show ?thesis
    unfolding registerWhen_def
    apply (rule conjI, rule refl)
    apply (rule exI [of _ "length (contexts (heap st))"], rule exI [of _ ?st'])
    apply (rule conjI, rule run)
    apply (rule conjI, rule refl)
    apply (rule conjI)
     apply (rule exI [of _ ?c])
     apply (simp add: at_append_new)
    using P M F
    apply (simp add: at_append_old)
    done
qed

theorem registerWhen_child_context_witness:
  "at (contexts (heap foo_suite)) 0 =
     Some \<lparr>inputs = foo_inputs, subject = foo_subject, modifiers = 0, performs = 0\<rparr> \<and>
   when_scope \<lparr>cfg_modifier = Some (set_value 9), cfg_perform = None\<rparr>
     (\<lambda>ctx st. (Inr (), st)) 0 foo_suite =
     (Inr (), foo_suite\<lparr>heap := (heap foo_suite)\<lparr>
        modifier_arrays := [[set_value 5], [set_value 5, set_value 9]],
        perform_arrays := [[inc], [inc]],
        contexts := [\<lparr>inputs = foo_inputs, subject = foo_subject, modifiers = 0, performs = 0\<rparr>,
                     \<lparr>inputs = foo_inputs, subject = foo_subject, modifiers = 1, performs = 1\<rparr>]\<rparr>\<rparr>)"
proof -
  let ?c = "\<lparr>inputs = foo_inputs, subject = foo_subject, modifiers = 0, performs = 0\<rparr>"
  let ?cfg = "\<lparr>cfg_modifier = Some (set_value 9), cfg_perform = None\<rparr>"
  have C: "at (contexts (heap foo_suite)) 0 = Some ?c"
    by (simp add: foo_suite_def foo_lookup)
  have M: "at (modifier_arrays (heap foo_suite)) (modifiers ?c) = Some [set_value 5]"
    by (simp add: foo_suite_def foo_lookup)
  have P: "at (perform_arrays (heap foo_suite)) (performs ?c) = Some [inc]"
    by (simp add: foo_suite_def foo_lookup)
  from registerWhen_child_context
    [where config = ?cfg and body = "\<lambda>ctx st. (Inr (), st)", OF C M P]
  have "\<exists>st'. when_scope ?cfg (\<lambda>ctx st. (Inr (), st)) 0 foo_suite = (Inr (), st')"
    by blast
  with C show ?thesis
    by (simp add: when_scope_def foo_suite_def foo_heap_def at_def new_modifier_array_def
        new_perform_array_def new_context_def)
qed

section \<open>Properties of the transform\<close>

subsection \<open>Which calls are collected\<close>

lemma visit_as_occurrences:
  "d = length (filter isRecognized anc) \<Longrightarrow> g = list_ex isGivenCall anc \<Longrightarrow>
   visit n d g = map call_site (filter nested_in_given (occurrences anc n))"
proof (induction n d g arbitrary: anc rule: visit.induct)
  case (1 n d g)
  show ?case
  proof (cases "isRecognized n")
    case True
    then obtain k m where p: "parseBddCall n = Some (k, m)" and c: "isCallExpression n"
      by (auto simp: isRecognized_def)
    have gc: "isGivenCall n \<longleftrightarrow> k = Given"
      using p c by (simp add: isGivenCall_def)
    have IH: "visit child (d + 1) (g \<or> fst (k, m) = Given) =
        map call_site (filter nested_in_given (occurrences (n # anc) child))"
      if "child \<in> set (forEachChild n)" for child
    proof -
      have A: "(if isCallExpression n then parseBddCall n else None) = Some (k, m)"
        using p c by simp
      have D: "d + 1 = length (filter isRecognized (n # anc))"
        using True "1.prems" by simp
      have G: "(g \<or> fst (k, m) = Given) = list_ex isGivenCall (n # anc)"
        using gc "1.prems" by auto
      show ?thesis by (rule "1.IH"(2) [OF A that D G])
    qed
    have kids: "concat (map (\<lambda>child. visit child (d + 1) (g \<or> fst (k, m) = Given)) (forEachChild n)) =
        map call_site (filter nested_in_given
           (concat (map (occurrences (n # anc)) (forEachChild n))))"
      using IH
      by (simp add: map_concat filter_concat comp_def cong: map_cong)
    have here: "(if fst (k, m) = Given \<or> g
                 then [\<lparr>kind = fst (k, m), node = n, depth = d, modifier = snd (k, m)\<rparr>] else []) =
        map call_site (filter nested_in_given [(anc, n)])"
      using p True gc "1.prems" by (auto simp: nested_in_given_def call_site_def)
    show ?thesis
      apply (subst visit.simps, subst occurrences.simps)
      using p c kids here
      apply (simp)
      done
  next
    case False
    then have p: "(if isCallExpression n then parseBddCall n else None) = None"
      by (cases "parseBddCall n") (auto simp: isRecognized_def)
    have ng: "\<not> isGivenCall n"
      using False by (auto simp: isRecognized_def isGivenCall_def split: option.splits)
    have IH: "visit child d g =
        map call_site (filter nested_in_given (occurrences (n # anc) child))"
      if "child \<in> set (forEachChild n)" for child
    proof -
      have D: "d = length (filter isRecognized (n # anc))"
        using False "1.prems" by simp
      have G: "g = list_ex isGivenCall (n # anc)"
        using ng "1.prems" by simp
      show ?thesis by (rule "1.IH"(1) [OF p that D G])
    qed
    have kids: "concat (map (\<lambda>child. visit child d g) (forEachChild n)) =
        map call_site (filter nested_in_given
           (concat (map (occurrences (n # anc)) (forEachChild n))))"
      using IH
      by (simp add: map_concat filter_concat comp_def cong: map_cong)
    show ?thesis
      apply (subst visit.simps, subst occurrences.simps)
      using p False kids
      apply (simp add: nested_in_given_def)
      done
  qed
qed

lemma collectBddCalls_as_occurrences:
  "collectBddCalls sourceFile = recognized_calls_in_given sourceFile"
  using visit_as_occurrences [of 0 "[]" False]
  by (simp add: collectBddCalls_def recognized_calls_in_given_def file_occurrences_def
      map_concat filter_concat comp_def)

lemma occurrences_ancestors:
  "(anc', n') \<in> set (occurrences anc n) \<Longrightarrow>
     set anc' \<subseteq> set anc \<union> snd ` set (occurrences anc n)"
proof (induction anc n arbitrary: anc' n' rule: occurrences.induct)
  case (1 anc n)
  from "1.prems" have "(anc', n') = (anc, n) \<or>
      (\<exists>child \<in> set (forEachChild n). (anc', n') \<in> set (occurrences (n # anc) child))"
    by (subst (asm) occurrences.simps) auto
  then show ?case
  proof
    assume "(anc', n') = (anc, n)"
    then show ?thesis by auto
  next
    assume "\<exists>child \<in> set (forEachChild n). (anc', n') \<in> set (occurrences (n # anc) child)"
    then obtain child where c: "child \<in> set (forEachChild n)"
      and o: "(anc', n') \<in> set (occurrences (n # anc) child)" by blast
    from "1.IH" [OF c o]
    have "set anc' \<subseteq> set (n # anc) \<union> snd ` set (occurrences (n # anc) child)" .
    moreover have "snd ` set (occurrences (n # anc) child) \<subseteq> snd ` set (occurrences anc n)"
      using c by (subst (2) occurrences.simps) auto
    moreover have "n \<in> snd ` set (occurrences anc n)"
      by (subst occurrences.simps) (simp add: image_iff)
    ultimately show ?thesis by auto
  qed
qed

lemma isGivenCall_isRecognized: "isGivenCall n \<Longrightarrow> isRecognized n"
  by (auto simp: isGivenCall_def isRecognized_def split: option.splits)

lemma containsGivenCall_occurrences:
  "containsGivenCall n \<longleftrightarrow> (\<exists>occ \<in> set (occurrences anc n). isGivenCall (snd occ))"
proof (induction n arbitrary: anc rule: containsGivenCall.induct)
  case (1 n)
  have "list_ex containsGivenCall (forEachChild n) \<longleftrightarrow>
      (\<exists>child \<in> set (forEachChild n). \<exists>occ \<in> set (occurrences (n # anc) child). isGivenCall (snd occ))"
    using "1.IH" [of _ "n # anc"] by (simp add: list_ex_iff)
  then show ?case
    by (subst containsGivenCall.simps, subst occurrences.simps) auto
qed

lemma collectBddCalls_empty:
  "collectBddCalls sourceFile = [] \<longleftrightarrow> \<not> containsGiven sourceFile"
proof -
  let ?occs = "file_occurrences sourceFile"
  have anc: "set anc' \<subseteq> snd ` set ?occs" if "(anc', n') \<in> set ?occs" for anc' n'
  proof -
    from that obtain stmt where s: "stmt \<in> set (statements sourceFile)"
      and o: "(anc', n') \<in> set (occurrences [] stmt)"
      by (auto simp: file_occurrences_def)
    from occurrences_ancestors [OF o]
    have "set anc' \<subseteq> snd ` set (occurrences [] stmt)" by simp
    also have "\<dots> \<subseteq> snd ` set ?occs"
      using s by (auto simp: file_occurrences_def)
    finally show ?thesis .
  qed
  have "(\<exists>occ \<in> set ?occs. nested_in_given occ) \<longleftrightarrow> (\<exists>occ \<in> set ?occs. isGivenCall (snd occ))"
  proof
    assume "\<exists>occ \<in> set ?occs. nested_in_given occ"
    then obtain anc' n' where o: "(anc', n') \<in> set ?occs" and n: "nested_in_given (anc', n')"
      by auto
    from n have "isGivenCall n' \<or> (\<exists>a \<in> set anc'. isGivenCall a)"
      by (auto simp: nested_in_given_def list_ex_iff)
    then show "\<exists>occ \<in> set ?occs. isGivenCall (snd occ)"
    proof
      assume "isGivenCall n'"
      with o show ?thesis by force
    next
      assume "\<exists>a \<in> set anc'. isGivenCall a"
      then obtain a where a: "a \<in> set anc'" "isGivenCall a" by blast
      with anc [OF o] have "a \<in> snd ` set ?occs" by blast
      with a(2) show ?thesis by auto
    qed
  next
    assume "\<exists>occ \<in> set ?occs. isGivenCall (snd occ)"
    then obtain occ where "occ \<in> set ?occs" "isGivenCall (snd occ)" by blast
    then have "nested_in_given occ"
      by (simp add: nested_in_given_def isGivenCall_isRecognized)
    with \<open>occ \<in> set ?occs\<close> show "\<exists>occ \<in> set ?occs. nested_in_given occ" by blast
  qed
  then have "(\<forall>occ \<in> set ?occs. \<not> nested_in_given occ) \<longleftrightarrow>
      (\<forall>occ \<in> set ?occs. \<not> isGivenCall (snd occ))"
    by blast
  moreover have "containsGiven sourceFile \<longleftrightarrow> (\<exists>occ \<in> set ?occs. isGivenCall (snd occ))"
    using containsGivenCall_occurrences [of _ "[]"]
    by (auto simp: containsGiven_def file_occurrences_def list_ex_iff)
  ultimately show ?thesis
    by (simp add: collectBddCalls_as_occurrences recognized_calls_in_given_def filter_empty_conv)
qed




lemma isIdentifier_text: "isIdentifier n \<and> ident_text n = t \<longleftrightarrow> (\<exists>s e. n = Identifier s e t)"
  by (cases n) auto


lemma isInputsAssignment_shape:
  "isInputsAssignment stmt \<longleftrightarrow>
     (\<exists>s e s1 e1 s2 e2 s3 e3 right.
        stmt = ExpressionStatement s e
          (BinaryExpression s1 e1 (Identifier s2 e2 ''$inputs'') (Token s3 e3 EqualsToken) right))"
  by (auto simp: isInputsAssignment_def assignment_def isIdentifier_text
      split: Node.splits SyntaxKind.splits option.splits if_splits)

lemma isSubjectAssignment_shape:
  "isSubjectAssignment stmt \<longleftrightarrow>
     (\<exists>s e s1 e1 s2 e2 s3 e3 right.
        stmt = ExpressionStatement s e
          (BinaryExpression s1 e1 (Identifier s2 e2 ''$subject'') (Token s3 e3 EqualsToken) right))"
  by (auto simp: isSubjectAssignment_def assignment_def isIdentifier_text
      split: Node.splits SyntaxKind.splits option.splits if_splits)

subsection \<open>Calls without an inline callback\<close>








subsection \<open>Files returned unmodified\<close>

lemma transform_calls_not_null:
  "and_then r (\<lambda>(s, usedHelpers, usedVitestImports). Inr (Some (f s usedHelpers usedVitestImports))) \<noteq> Inr None"
  by (cases r) (auto simp: and_then_def)

text \<open>
  C4, as amended. \<^verbatim>\<open>transformBddSyntax\<close> returns \<^verbatim>\<open>null\<close> exactly on the files that have a
  named import called \<^verbatim>\<open>given\<close> and the files whose tree holds no recognised \<^verbatim>\<open>given\<close>
  call (they may hold \<^verbatim>\<open>when\<close> and \<^verbatim>\<open>it\<close> calls). It does not look for imports of the
  registration functions. On every other file the result is not \<^verbatim>\<open>null\<close>.
\<close>

theorem transformBddSyntax_null_iff:
  "transformBddSyntax code fileId sourceFile = Inr None \<longleftrightarrow>
     importsGiven sourceFile \<or> \<not> containsGiven sourceFile"
proof (cases "importsGiven sourceFile \<or> \<not> containsGiven sourceFile")
  case True
  then show ?thesis
    by (auto simp: transformBddSyntax_def collectBddCalls_empty)
next
  case False
  then have "collectBddCalls sourceFile \<noteq> []" "\<not> importsGiven sourceFile"
    by (simp_all add: collectBddCalls_empty)
  then have "transformBddSyntax code fileId sourceFile \<noteq> Inr None"
    unfolding transformBddSyntax_def
    by (simp add: transform_calls_not_null
        [where f = "\<lambda>s h v. \<lparr>result_code = ms_toString (ms_prepend (import_lines h v @ [CHR 0x0A]) s),
                              result_map_source = fileId\<rparr>"])
  with False show ?thesis by simp
qed

lemma plain_no_given: "\<not> containsGiven plain_tree"
  by code_simp

lemma plain_imports: "\<not> importsGiven plain_tree"
  by code_simp

text \<open>A vitest file with \<^verbatim>\<open>it\<close> calls under \<^verbatim>\<open>describe\<close> and no \<^verbatim>\<open>given\<close>: \<^verbatim>\<open>null\<close>.\<close>

theorem transformBddSyntax_null_iff_witness:
  "\<not> importsGiven plain_tree \<and> \<not> containsGiven plain_tree \<and>
   transformBddSyntax plain_code ''plain.spec.ts'' plain_tree = Inr None"
  using transformBddSyntax_null_iff [of plain_code "''plain.spec.ts''" plain_tree]
    plain_no_given plain_imports
  by simp

lemma c4_fits: "file_fits c4_code c4_tree"
  by code_simp

lemma c4_imports: "import_names (hd (statements c4_tree)) = [''__given'']"
  by code_simp

lemma c4_run: \<open>transformBddSyntax c4_code ''c4.spec.ts'' c4_tree =
   Inr (Some \<lparr>result_code =
      ''import { __given } from "@michaelhelvey/vitest-bdd/runtime";\<newline>\<newline>import { __given } from "@michaelhelvey/vitest-bdd/runtime";\<newline>__given("x", {  }, (__ctx) => {});'',
     result_map_source = ''c4.spec.ts''\<rparr>)\<close>
  by code_simp

text \<open>
  C4 as stated fails on a file that imports \<^verbatim>\<open>__given\<close> and calls \<^verbatim>\<open>given\<close>: it is
  rewritten, and gets the import line a second time.
\<close>

theorem imports_registration_counterexample:
  \<open>file_fits c4_code c4_tree \<and>
   import_names (hd (statements c4_tree)) = [''__given''] \<and>
   transformBddSyntax c4_code ''c4.spec.ts'' c4_tree =
   Inr (Some \<lparr>result_code =
      ''import { __given } from "@michaelhelvey/vitest-bdd/runtime";\<newline>\<newline>import { __given } from "@michaelhelvey/vitest-bdd/runtime";\<newline>__given("x", {  }, (__ctx) => {});'',
     result_map_source = ''c4.spec.ts''\<rparr>)\<close>
  using c4_fits c4_imports c4_run by simp

subsection \<open>Collected calls\<close>














subsection \<open>The statements of a when callback\<close>





















subsection \<open>The edits of one call on the unedited source\<close>

















lemma all_before_replaced: "all_before p [replaced a b t] \<longleftrightarrow> a < b \<and> b \<le> p"
  by (simp add: all_before_def replaced_def)


lemma all_after_replaced: "all_after q [replaced a b t] \<longleftrightarrow> q \<le> a \<and> a < b"
  by (simp add: all_after_def replaced_def)
























subsection \<open>The factories of a given callback\<close>






















subsection \<open>Transforming twice\<close>
























subsection \<open>A given call that is not rewritten\<close>

lemma c10_fits: "file_fits c10_code c10_tree"
  by code_simp

lemma c10_calls: "map kind (collectBddCalls c10_tree) = [Given]"
  by code_simp

lemma c10_callback: "getCallbackArg (node (hd (collectBddCalls c10_tree))) = None"
  by code_simp

lemma c10_one: "length (filter isRecognized (map snd (file_occurrences c10_tree))) = 1"
  by code_simp

lemma c10_text: \<open>c10_code = ''given("x", cb);''\<close>
  by code_simp

lemma c10_run: \<open>transformBddSyntax c10_code ''c10.spec.ts'' c10_tree =
   Inr (Some \<lparr>result_code =
       ''import { __given } from "@michaelhelvey/vitest-bdd/runtime";\<newline>\<newline>'' @ c10_code,
     result_map_source = ''c10.spec.ts''\<rparr>)\<close>
  by code_simp

text \<open>
  C10. The file \<^verbatim>\<open>given("x", cb);\<close> holds one recognised call, a \<^verbatim>\<open>given\<close> whose callback
  is a stored variable. The result is not \<^verbatim>\<open>null\<close>: its code is the import of \<^verbatim>\<open>__given\<close>,
  an empty line and the source, unchanged.
\<close>

theorem unrewritten_given_still_imported:
  \<open>c10_code = ''given("x", cb);'' \<and>
   file_fits c10_code c10_tree \<and>
   length (filter isRecognized (map snd (file_occurrences c10_tree))) = 1 \<and>
   map kind (collectBddCalls c10_tree) = [Given] \<and>
   getCallbackArg (node (hd (collectBddCalls c10_tree))) = None \<and>
   transformBddSyntax c10_code ''c10.spec.ts'' c10_tree =
     Inr (Some \<lparr>result_code =
       ''import { __given } from "@michaelhelvey/vitest-bdd/runtime";\<newline>\<newline>'' @ c10_code,
     result_map_source = ''c10.spec.ts''\<rparr>)\<close>
  by (rule conjI c10_text c10_fits c10_one c10_calls c10_callback c10_run)+

end
